theory Spec2Isabelle
  imports Main "HOL-Library.AList"
begin

section \<open>The signaling server (server/src/socket.js)\<close>

text \<open>
  The server keeps two plain objects, \<^verbatim>\<open>users\<close> (socket id to user id) and
  \<^verbatim>\<open>rooms\<close> (room id to an array of \<^verbatim>\<open>{socketId, userId}\<close>), and one handler per
  event of a connected socket. Every handler runs to completion, so a handler is a
  function from the state before it to the state after it, together with the list of
  messages it emitted.

  Ids, user ids, room ids and signaling payloads are strings, as the message contract
  has them. The \<^verbatim>\<open>from\<close> field of a signaling message, which the server does
  not use for addressing, is any value a message can carry.
\<close>

type_synonym conn_id = string
type_synonym user_id = string
type_synonym room_id = string
type_synonym payload = string

text \<open>An entry of a room's array: \<^verbatim>\<open>{socketId, userId}\<close>.\<close>

record roomMember =
  socketId :: conn_id
  userId :: user_id

text \<open>The events the server sends, with their payloads.\<close>

datatype event =
    RoomUsers "roomMember list"
  | UserJoinedRoom roomMember
  | UserLeftRoom roomMember
  | ReceiveOffer payload conn_id
  | ReceiveAnswer payload conn_id
  | ReceiveIceCandidate payload conn_id

text \<open>
  The three ways the handlers address a message: \<^verbatim>\<open>socket.emit\<close> (the sender's own
  socket), \<^verbatim>\<open>socket.to(room).emit\<close> (every socket of the socket.io room but the
  sender) and \<^verbatim>\<open>io.to(room).emit\<close> (every socket of the socket.io room).
\<close>

datatype target =
    ToSender conn_id
  | Broadcast string conn_id
  | ToRoom string

text \<open>
  socket.io itself is a library, not part of the repository. What the handlers use of
  it is modelled after its documentation: the adapter maps a room name to the set of
  sockets in it; a socket joins the room named by its own id when it connects;
  \<^verbatim>\<open>socket.join\<close> and \<^verbatim>\<open>socket.leave\<close> add and remove the socket; a socket
  has left every room by the time its \<^verbatim>\<open>disconnect\<close> handler runs. Room names and
  socket ids share one name space.
\<close>

type_synonym adapter = "string \<Rightarrow> conn_id set"

fun recipients :: "adapter \<Rightarrow> target \<Rightarrow> conn_id set" where
  "recipients a (ToSender c) = {c}"
| "recipients a (Broadcast r c) = a r - {c}"
| "recipients a (ToRoom r) = a r"

text \<open>An emitted message, with the sockets it is delivered to as the adapter stood
  when it was emitted.\<close>

record emission =
  target :: target
  receivers :: "conn_id set"
  event :: event

definition emit :: "adapter \<Rightarrow> target \<Rightarrow> event \<Rightarrow> emission" where
  "emit a t e = \<lparr>target = t, receivers = recipients a t, event = e\<rparr>"

text \<open>What a handler can raise. \<^verbatim>\<open>TypeError\<close>: a call of something that is not a
  function, or a conversion to a string of a value that has none. (\<^verbatim>\<open>RangeError\<close> and \<^verbatim>\<open>NotAllowedError\<close> belong to the client: the call
  stack is exhausted; \<^verbatim>\<open>getUserMedia\<close> was refused.)\<close>

datatype error = TypeError | RangeError | NotAllowedError

record server =
  users :: "conn_id \<rightharpoonup> user_id"
  rooms :: "(room_id \<times> roomMember list) list"
  adapter :: adapter
  connected :: "conn_id set"

definition init :: server where
  "init = \<lparr>users = Map.empty, rooms = [], adapter = (\<lambda>_. {}), connected = {}\<rparr>"

text \<open>\<^verbatim>\<open>rooms[roomId]\<close> read as an array: the empty list when the key is absent.\<close>

definition room_members :: "(room_id \<times> roomMember list) list \<Rightarrow> room_id \<Rightarrow> roomMember list" where
  "room_members rs rid = (case map_of rs rid of None \<Rightarrow> [] | Some ms \<Rightarrow> ms)"

text \<open>
  \<^verbatim>\<open>rooms\<close> is a plain object (\<^verbatim>\<open>{}\<close>), so \<^verbatim>\<open>rooms[roomId]\<close> on a name that
  is not a key of its own finds the member of \<^verbatim>\<open>Object.prototype\<close> of that name, if
  there is one: a function or an object, which counts as true in a condition and has
  neither \<^verbatim>\<open>push\<close> nor \<^verbatim>\<open>filter\<close>.
\<close>

definition inherited :: "string \<Rightarrow> bool" where
  "inherited k =
     (k \<in> set [''constructor'', ''__proto__'', ''hasOwnProperty'', ''isPrototypeOf'',
        ''propertyIsEnumerable'', ''toLocaleString'', ''toString'', ''valueOf'',
        ''__defineGetter__'', ''__defineSetter__'', ''__lookupGetter__'', ''__lookupSetter__''])"

definition reads_inherited :: "(room_id \<times> roomMember list) list \<Rightarrow> room_id \<Rightarrow> bool" where
  "reads_inherited rs rid = (map_of rs rid = None \<and> inherited rid)"

text \<open>What a handler leaves: the state, the messages it emitted, and the exception it
  raised, if any.\<close>

record outcome =
  state :: server
  emitted :: "emission list"
  raised :: "error option"

text \<open>\<^verbatim>\<open>io.on('connection')\<close>: socket.io has put the new socket into the room of its
  own id; the handler only registers the listeners below.\<close>

definition connect :: "conn_id \<Rightarrow> server \<Rightarrow> outcome" where
  "connect c st =
     \<lparr>state = st\<lparr>adapter := (adapter st)(c := insert c (adapter st c)),
                    connected := insert c (connected st)\<rparr>,
      emitted = [], raised = None\<rparr>"

text \<open>\<^verbatim>\<open>userJoined\<close>: \<^verbatim>\<open>users[socket.id] = userId\<close>. (The keys of \<^verbatim>\<open>users\<close> are
  socket ids, which socket.io generates with 20 characters: never \<^verbatim>\<open>__proto__\<close>, the
  one name on which an assignment does not make a key of the object's own.)\<close>

definition userJoined :: "conn_id \<Rightarrow> user_id \<Rightarrow> server \<Rightarrow> outcome" where
  "userJoined c uid st =
     \<lparr>state = st\<lparr>users := (users st)(c \<mapsto> uid)\<rparr>, emitted = [], raised = None\<rparr>"

text \<open>
  \<^verbatim>\<open>joinRoom\<close>: join the socket.io room, create the array if the key is absent, push
  the entry, answer the sender with the other entries, tell the room. On an inherited
  name \<^verbatim>\<open>!rooms[roomId]\<close> is false and \<^verbatim>\<open>rooms[roomId].push\<close> is not a function.
\<close>

definition joinRoom :: "conn_id \<Rightarrow> room_id \<Rightarrow> user_id \<Rightarrow> server \<Rightarrow> outcome" where
  "joinRoom c rid uid st =
     (let st1 = st\<lparr>adapter := (adapter st)(rid := insert c (adapter st rid))\<rparr>
      in if reads_inherited (rooms st1) rid
         then \<lparr>state = st1, emitted = [], raised = Some TypeError\<rparr>
         else
           (let rs1 = (if map_of (rooms st1) rid = None then AList.update rid [] (rooms st1)
                       else rooms st1);
                rs2 = AList.update rid (room_members rs1 rid @ [\<lparr>socketId = c, userId = uid\<rparr>]) rs1;
                st2 = st1\<lparr>rooms := rs2\<rparr>;
                usersInRoom = filter (\<lambda>u. socketId u \<noteq> c) (room_members rs2 rid)
            in \<lparr>state = st2,
                emitted =
                  [emit (adapter st2) (ToSender c) (RoomUsers usersInRoom),
                   emit (adapter st2) (Broadcast rid c)
                     (UserJoinedRoom \<lparr>socketId = c, userId = uid\<rparr>)],
                raised = None\<rparr>))"

text \<open>
  The \<^verbatim>\<open>from\<close> field of an incoming signaling message is whatever the sender put
  there: any value that a message can carry, which is what JSON can write (a field
  that is missing reads as \<^verbatim>\<open>undefined\<close>). An object is the list of its own
  properties.
\<close>

datatype js_value =
    Str string
  | Num int
  | Bool bool
  | Null
  | Undefined
  | Arr "js_value list"
  | Obj "(string \<times> js_value) list"

text \<open>
  Whether the conversion of a value to a string returns. A template literal converts
  each value it interpolates. A string, number, boolean, \<^verbatim>\<open>null\<close> and
  \<^verbatim>\<open>undefined\<close> convert. An array joins the conversions of its elements. An object
  is converted by its \<^verbatim>\<open>toString\<close>, then by its \<^verbatim>\<open>valueOf\<close>: the inherited
  \<^verbatim>\<open>toString\<close> returns a string; a property \<^verbatim>\<open>toString\<close> of the object's own,
  which in a message is never a function, is passed over, and \<^verbatim>\<open>valueOf\<close> then
  gives no primitive value (the inherited one returns the object, one of its own is
  not a function either): the conversion raises \<^verbatim>\<open>TypeError\<close>.
\<close>

fun printable :: "js_value \<Rightarrow> bool" where
  "printable (Arr vs) = (\<forall>v \<in> set vs. printable v)"
| "printable (Obj ps) = (''toString'' \<notin> fst ` set ps)"
| "printable v = True"

text \<open>A template literal with the given values interpolated raises when one of them
  has no conversion.\<close>

definition template_raises :: "js_value list \<Rightarrow> bool" where
  "template_raises vs = (\<not> list_all printable vs)"

text \<open>
  The three relay handlers: \<^verbatim>\<open>io.to(to).emit\<close> with \<^verbatim>\<open>from: socket.id\<close>.
  \<^verbatim>\<open>sendOffer\<close> and \<^verbatim>\<open>sendAnswer\<close> first log a template literal that
  interpolates the \<^verbatim>\<open>from\<close> and the \<^verbatim>\<open>to\<close> of the incoming message (lines 47
  and 56); \<^verbatim>\<open>sendIceCandidate\<close> logs nothing. \<^verbatim>\<open>to\<close> is the id of the
  addressee, a string.
\<close>

definition sendOffer :: "conn_id \<Rightarrow> payload \<Rightarrow> string \<Rightarrow> js_value \<Rightarrow> server \<Rightarrow> outcome" where
  "sendOffer c offer to frm st =
     (if template_raises [frm, Str to] then \<lparr>state = st, emitted = [], raised = Some TypeError\<rparr>
      else \<lparr>state = st, emitted = [emit (adapter st) (ToRoom to) (ReceiveOffer offer c)],
             raised = None\<rparr>)"

definition sendAnswer :: "conn_id \<Rightarrow> payload \<Rightarrow> string \<Rightarrow> js_value \<Rightarrow> server \<Rightarrow> outcome" where
  "sendAnswer c answer to frm st =
     (if template_raises [frm, Str to] then \<lparr>state = st, emitted = [], raised = Some TypeError\<rparr>
      else \<lparr>state = st, emitted = [emit (adapter st) (ToRoom to) (ReceiveAnswer answer c)],
             raised = None\<rparr>)"

definition sendIceCandidate :: "conn_id \<Rightarrow> payload \<Rightarrow> string \<Rightarrow> js_value \<Rightarrow> server \<Rightarrow> outcome" where
  "sendIceCandidate c candidate to frm st =
     \<lparr>state = st, emitted = [emit (adapter st) (ToRoom to) (ReceiveIceCandidate candidate c)],
      raised = None\<rparr>"

text \<open>
  \<^verbatim>\<open>leaveRoom\<close>: when the key is present, filter the sender out; delete the key if
  the array is now empty, otherwise tell the room. In every case leave the socket.io
  room afterwards. On an inherited name \<^verbatim>\<open>rooms[roomId]\<close> counts as true and
  \<^verbatim>\<open>rooms[roomId].filter\<close> is not a function.
\<close>

definition leaveRoom :: "conn_id \<Rightarrow> room_id \<Rightarrow> user_id \<Rightarrow> server \<Rightarrow> outcome" where
  "leaveRoom c rid uid st =
     (if reads_inherited (rooms st) rid
      then \<lparr>state = st, emitted = [], raised = Some TypeError\<rparr>
      else
        (let (rs, ems) =
               (case map_of (rooms st) rid of
                  None \<Rightarrow> (rooms st, [])
                | Some ms \<Rightarrow>
                    (let rs1 = AList.update rid (filter (\<lambda>u. socketId u \<noteq> c) ms) (rooms st)
                     in if room_members rs1 rid = [] then (AList.delete rid rs1, [])
                        else (rs1, [emit (adapter st) (Broadcast rid c)
                                      (UserLeftRoom \<lparr>socketId = c, userId = uid\<rparr>)])))
         in \<lparr>state = st\<lparr>rooms := rs, adapter := (adapter st)(rid := adapter st rid - {c})\<rparr>,
             emitted = ems, raised = None\<rparr>))"

text \<open>
  The body of the loop of \<^verbatim>\<open>disconnect\<close> for one key: when the key is (still)
  present and the array holds an entry of the socket, filter the socket out, tell the
  room with the user id of the first such entry, and delete the key if the array is
  now empty.
\<close>

definition cleanupRoom ::
  "adapter \<Rightarrow> conn_id \<Rightarrow> room_id \<Rightarrow> (room_id \<times> roomMember list) list \<times> emission list
     \<Rightarrow> (room_id \<times> roomMember list) list \<times> emission list" where
  "cleanupRoom a c rid acc =
     (case acc of (rs, ems) \<Rightarrow>
        (case map_of rs rid of
           None \<Rightarrow> (rs, ems)
         | Some ms \<Rightarrow>
             (case List.find (\<lambda>u. socketId u = c) ms of
                None \<Rightarrow> (rs, ems)
              | Some userInRoom \<Rightarrow>
                  (let rs1 = AList.update rid (filter (\<lambda>u. socketId u \<noteq> c) ms) rs;
                       ems1 = ems @ [emit a (Broadcast rid c)
                                 (UserLeftRoom \<lparr>socketId = c, userId = userId userInRoom\<rparr>)]
                   in if room_members rs1 rid = [] then (AList.delete rid rs1, ems1)
                      else (rs1, ems1)))))"

text \<open>
  The loop of \<^verbatim>\<open>disconnect\<close> (the registry's cleanup for one socket): it walks the
  keys \<^verbatim>\<open>rooms\<close> had when the loop started. The keys are walked in the order of
  the association list, which is insertion order; \<^verbatim>\<open>Object.keys\<close> lists keys that
  are array indices before the others. The theorems below do not depend on the
  order.
\<close>

definition disconnectCleanup :: "conn_id \<Rightarrow> server \<Rightarrow> server \<times> emission list" where
  "disconnectCleanup c st =
     (let (rs, ems) = fold (cleanupRoom (adapter st) c) (map fst (rooms st)) (rooms st, [])
      in (st\<lparr>rooms := rs\<rparr>, ems))"

text \<open>
  \<^verbatim>\<open>disconnect\<close>: socket.io has taken the socket out of every room; the handler
  runs the loop and deletes \<^verbatim>\<open>users[socket.id]\<close> last.
\<close>

definition disconnect :: "conn_id \<Rightarrow> server \<Rightarrow> outcome" where
  "disconnect c st =
     (let st0 = st\<lparr>adapter := (\<lambda>r. adapter st r - {c}), connected := connected st - {c}\<rparr>;
          (st1, ems) = disconnectCleanup c st0
      in \<lparr>state = st1\<lparr>users := (users st1)(c := None)\<rparr>, emitted = ems, raised = None\<rparr>)"

text \<open>What a client can make the server do, and a run of the server from a state. No
  handler catches, and the process has no handler for uncaught exceptions: the run
  ends with the first handler that raises.\<close>

datatype op =
    Connect conn_id
  | UserJoined conn_id user_id
  | JoinRoom conn_id room_id user_id
  | SendOffer conn_id payload string js_value
  | SendAnswer conn_id payload string js_value
  | SendIceCandidate conn_id payload string js_value
  | LeaveRoom conn_id room_id user_id
  | Disconnect conn_id

fun step :: "op \<Rightarrow> server \<Rightarrow> outcome" where
  "step (Connect c) st = connect c st"
| "step (UserJoined c uid) st = userJoined c uid st"
| "step (JoinRoom c rid uid) st = joinRoom c rid uid st"
| "step (SendOffer c p to frm) st = sendOffer c p to frm st"
| "step (SendAnswer c p to frm) st = sendAnswer c p to frm st"
| "step (SendIceCandidate c p to frm) st = sendIceCandidate c p to frm st"
| "step (LeaveRoom c rid uid) st = leaveRoom c rid uid st"
| "step (Disconnect c) st = disconnect c st"

fun run :: "op list \<Rightarrow> server \<Rightarrow> server" where
  "run [] st = st"
| "run (x # xs) st =
     (if raised (step x st) = None then run xs (state (step x st)) else state (step x st))"

text \<open>A run in which no socket joins a room it already has an entry in.\<close>

fun fresh_joins :: "op list \<Rightarrow> server \<Rightarrow> bool" where
  "fresh_joins [] st = True"
| "fresh_joins (x # xs) st =
     ((case x of
         JoinRoom c rid uid \<Rightarrow> c \<notin> socketId ` set (room_members (rooms st) rid)
       | _ \<Rightarrow> True)
      \<and> (raised (step x st) = None \<longrightarrow> fresh_joins xs (state (step x st))))"

text \<open>The messages a run emits, in order.\<close>

fun trace :: "op list \<Rightarrow> server \<Rightarrow> emission list" where
  "trace [] st = []"
| "trace (x # xs) st =
     emitted (step x st) @ (if raised (step x st) = None then trace xs (state (step x st)) else [])"

text \<open>Two operations that are the same but, for a relayed message, for the \<^verbatim>\<open>from\<close>
  field the sender supplied, where the two \<^verbatim>\<open>from\<close> values of an offer or an answer
  both have a conversion to a string or both have none.\<close>

fun same_but_from :: "op \<Rightarrow> op \<Rightarrow> bool" where
  "same_but_from (SendOffer c p to frm) y =
     (\<exists>frm'. y = SendOffer c p to frm' \<and> printable frm' = printable frm)"
| "same_but_from (SendAnswer c p to frm) y =
     (\<exists>frm'. y = SendAnswer c p to frm' \<and> printable frm' = printable frm)"
| "same_but_from (SendIceCandidate c p to frm) y = (\<exists>frm'. y = SendIceCandidate c p to frm')"
| "same_but_from x y = (x = y)"

text \<open>An operation that does not take socket \<open>b\<close> out of the socket.io room of its own
  id: neither its disconnect nor its \<^verbatim>\<open>leaveRoom\<close> with its own id as room id.\<close>

fun keeps_own_room :: "conn_id \<Rightarrow> op \<Rightarrow> bool" where
  "keeps_own_room b (Disconnect c) = (c \<noteq> b)"
| "keeps_own_room b (LeaveRoom c rid uid) = (\<not> (c = b \<and> rid = b))"
| "keeps_own_room b x = True"

text \<open>The member list of a \<^verbatim>\<open>roomUsers\<close> message, the reply to a join.\<close>

fun roomUsers_of :: "event \<Rightarrow> roomMember list option" where
  "roomUsers_of (RoomUsers ms) = Some ms"
| "roomUsers_of _ = None"

text \<open>The \<^verbatim>\<open>from\<close> field of a relayed signaling message.\<close>

fun event_from :: "event \<Rightarrow> conn_id option" where
  "event_from (ReceiveOffer p f) = Some f"
| "event_from (ReceiveAnswer p f) = Some f"
| "event_from (ReceiveIceCandidate p f) = Some f"
| "event_from _ = None"

text \<open>
  What the loop of \<^verbatim>\<open>disconnect\<close> does to one room, as a specification:
  \<open>purge\<close> is the room's array afterwards (\<open>None\<close>: no key), \<open>notice\<close> what is
  emitted for it.
\<close>

fun purge :: "conn_id \<Rightarrow> roomMember list option \<Rightarrow> roomMember list option" where
  "purge c None = None"
| "purge c (Some ms) =
     (if c \<in> socketId ` set ms
      then (if filter (\<lambda>u. socketId u \<noteq> c) ms = [] then None
            else Some (filter (\<lambda>u. socketId u \<noteq> c) ms))
      else Some ms)"

fun notice :: "adapter \<Rightarrow> conn_id \<Rightarrow> room_id \<Rightarrow> roomMember list option \<Rightarrow> emission list" where
  "notice a c r None = []"
| "notice a c r (Some ms) =
     (case List.find (\<lambda>u. socketId u = c) ms of
        None \<Rightarrow> []
      | Some userInRoom \<Rightarrow>
          [emit a (Broadcast r c) (UserLeftRoom \<lparr>socketId = c, userId = userId userInRoom\<rparr>)])"

text \<open>Invariants of the registry and of the registry against the socket.io rooms, used
  in the proofs.\<close>

definition nonempty_rooms :: "server \<Rightarrow> bool" where
  "nonempty_rooms st = (\<forall>r ms. map_of (rooms st) r = Some ms \<longrightarrow> ms \<noteq> [])"

definition distinct_rooms :: "server \<Rightarrow> bool" where
  "distinct_rooms st = (\<forall>r ms. map_of (rooms st) r = Some ms \<longrightarrow> distinct (map socketId ms))"

definition members_in_adapter :: "server \<Rightarrow> bool" where
  "members_in_adapter st = (\<forall>r. socketId ` set (room_members (rooms st) r) \<subseteq> adapter st r)"

section \<open>The client (client/src/context/SocketContext.tsx)\<close>

text \<open>
  \<^verbatim>\<open>SocketProvider\<close> is a React component: its state is the \<^verbatim>\<open>useState\<close> cells
  (\<^verbatim>\<open>socket\<close>, \<^verbatim>\<open>peers\<close>, \<^verbatim>\<open>localStream\<close>, \<^verbatim>\<open>remoteStreams\<close>,
  \<^verbatim>\<open>currentRoom\<close>, \<^verbatim>\<open>isCallActive\<close>, \<^verbatim>\<open>users\<close>) and \<^verbatim>\<open>user\<close> of the
  authentication context. The model runs one event at a time, each on the state the
  previous event left after React had rendered again, so the listeners and callbacks
  see the current state. Peer objects (simple-peer instances) and media streams are
  objects outside the React state: they are referred to by number, and the model
  records what the component does to them: which peers it destroyed, which signals it
  passed to which peer, which streams had their tracks stopped, which peers got their
  listeners.
\<close>

type_synonym peer_ref = nat
type_synonym stream_ref = nat

text \<open>The object \<^verbatim>\<open>{initiator, stream, config}\<close>; \<^verbatim>\<open>config\<close> is a constant.\<close>

record peer_options =
  initiator :: bool
  stream :: "stream_ref option"

text \<open>
  What \<^verbatim>\<open>createPeerConnection\<close> is given as its first argument: the remote socket id
  at the call sites of the listeners and of \<^verbatim>\<open>startCall\<close>, the options object at the
  call in its own body.
\<close>

datatype arg = PeerId conn_id | PeerOptions peer_options

datatype signal = Offer payload | Answer payload | Candidate payload

datatype client_msg = EmitJoinRoom room_id user_id | EmitLeaveRoom room_id user_id

text \<open>
  The two \<^verbatim>\<open>Map\<close>s are association lists in insertion order. React compares the
  dependencies of an effect by identity, and every \<^verbatim>\<open>setPeers\<close> of the source passes
  a \<^verbatim>\<open>Map\<close> it has just built: \<open>peersVersion\<close> counts the \<^verbatim>\<open>Map\<close> objects that
  have been the \<^verbatim>\<open>peers\<close> state. The state cell \<^verbatim>\<open>users\<close> is \<open>users_client\<close>
  here.
\<close>

record client =
  socket :: "conn_id option"
  user :: "user_id option"
  peers :: "(arg \<times> peer_ref) list"
  peersVersion :: nat
  localStream :: "stream_ref option"
  remoteStreams :: "(arg \<times> stream_ref) list"
  currentRoom :: "room_id option"
  isCallActive :: bool
  users_client :: "roomMember list"
  destroyed :: "peer_ref set"
  signalled :: "(peer_ref \<times> signal) list"
  stopped :: "stream_ref set"
  listeners :: "(peer_ref \<times> arg \<times> conn_id option) list"
  sent :: "client_msg list"

definition client_init :: "conn_id option \<Rightarrow> user_id option \<Rightarrow> client" where
  "client_init s u =
     \<lparr>socket = s, user = u, peers = [], peersVersion = 0, localStream = None,
      remoteStreams = [], currentRoom = None, isCallActive = False, users_client = [],
      destroyed = {}, signalled = [], stopped = {}, listeners = [], sent = []\<rparr>"

definition setPeers :: "(arg \<times> peer_ref) list \<Rightarrow> client \<Rightarrow> client" where
  "setPeers m st = st\<lparr>peers := m, peersVersion := Suc (peersVersion st)\<rparr>"

text \<open>
  \<^verbatim>\<open>createPeerConnection\<close> (lines 148 to 217) first calls the peer constructor and
  then works on the peer it got. \<open>registerPeer\<close> is that second part (lines 165 to
  216): the four \<^verbatim>\<open>peer.on\<close> registrations (recorded with the ids the listeners
  close over), the signalling of the incoming offer, and
  \<^verbatim>\<open>setPeers(prev => new Map(prev.set(remotePeerId, peer)))\<close>. (\<^verbatim>\<open>prev.set\<close>
  also changes the \<^verbatim>\<open>Map\<close> object of the previous state; the model keeps the new
  state only.)
\<close>

definition registerPeer ::
  "arg \<Rightarrow> conn_id option \<Rightarrow> payload option \<Rightarrow> peer_ref \<Rightarrow> client \<Rightarrow> client" where
  "registerPeer remotePeerId localPeerId incomingOffer peer st =
     (let st1 = st\<lparr>listeners := listeners st @ [(peer, remotePeerId, localPeerId)]\<rparr>;
          st2 = (case incomingOffer of
                   None \<Rightarrow> st1
                 | Some offer \<Rightarrow> st1\<lparr>signalled := signalled st1 @ [(peer, Offer offer)]\<rparr>)
      in setPeers (AList.update remotePeerId peer (peers st2)) st2)"

text \<open>
  The constructor call. Inside \<^verbatim>\<open>SocketProvider\<close> the name
  \<^verbatim>\<open>createPeerConnection\<close> is the constant declared at line 148, which hides the
  function imported at line 3 under the same name. The call at line 154,
  \<^verbatim>\<open>createPeerConnection({initiator: !incomingOffer, stream, config})\<close>, is therefore
  a call of the function to itself, with the options object as \<^verbatim>\<open>remotePeerId\<close>, no
  \<^verbatim>\<open>localPeerId\<close>, no \<^verbatim>\<open>stream\<close> and the default \<^verbatim>\<open>null\<close> for
  \<^verbatim>\<open>incomingOffer\<close>. The first argument of the model is the number of nested calls
  the JavaScript stack still has room for; a call with no room left raises
  \<^verbatim>\<open>RangeError\<close>, which no frame catches.
\<close>

fun createPeerConnection ::
  "nat \<Rightarrow> arg \<Rightarrow> conn_id option \<Rightarrow> stream_ref option \<Rightarrow> payload option \<Rightarrow> client
     \<Rightarrow> error + (peer_ref \<times> client)" where
  "createPeerConnection 0 remotePeerId localPeerId strm incomingOffer st = Inl RangeError"
| "createPeerConnection (Suc depth) remotePeerId localPeerId strm incomingOffer st =
     (case createPeerConnection depth
             (PeerOptions \<lparr>initiator = (incomingOffer = None), stream = strm\<rparr>) None None None st of
        Inl e \<Rightarrow> Inl e
      | Inr (peer, st1) \<Rightarrow>
          Inr (peer, registerPeer remotePeerId localPeerId incomingOffer peer st1))"

text \<open>\<^verbatim>\<open>forEach\<close> over room users that calls \<^verbatim>\<open>createPeerConnection\<close> for each: an
  exception ends the loop.\<close>

fun createAll ::
  "nat \<Rightarrow> roomMember list \<Rightarrow> conn_id option \<Rightarrow> stream_ref \<Rightarrow> client \<Rightarrow> client \<times> error option" where
  "createAll depth [] localPeerId strm st = (st, None)"
| "createAll depth (remoteUser # rest) localPeerId strm st =
     (case createPeerConnection depth (PeerId (socketId remoteUser)) localPeerId (Some strm) None st of
        Inl e \<Rightarrow> (st, Some e)
      | Inr (peer, st1) \<Rightarrow> createAll depth rest localPeerId strm st1)"

text \<open>The listeners of the socket events (lines 69 to 135). A listener returns the
  state it leaves and the exception it raised, if any.\<close>

definition on_roomUsers :: "nat \<Rightarrow> roomMember list \<Rightarrow> client \<Rightarrow> client \<times> error option" where
  "on_roomUsers depth roomUsers st =
     (let st1 = st\<lparr>users_client := roomUsers\<rparr>
      in case localStream st of
           None \<Rightarrow> (st1, None)
         | Some s \<Rightarrow> createAll depth roomUsers (socket st) s st1)"

definition on_userJoinedRoom :: "roomMember \<Rightarrow> client \<Rightarrow> client \<times> error option" where
  "on_userJoinedRoom u st = (st\<lparr>users_client := users_client st @ [u]\<rparr>, None)"

definition on_userLeftRoom :: "roomMember \<Rightarrow> client \<Rightarrow> client \<times> error option" where
  "on_userLeftRoom u st =
     (let st1 = st\<lparr>users_client := filter (\<lambda>x. socketId x \<noteq> socketId u) (users_client st)\<rparr>;
          st2 = (case map_of (peers st) (PeerId (socketId u)) of
                   None \<Rightarrow> st1
                 | Some p \<Rightarrow>
                     setPeers (AList.delete (PeerId (socketId u)) (peers st))
                       (st1\<lparr>destroyed := insert p (destroyed st1)\<rparr>));
          st3 = (case map_of (remoteStreams st) (PeerId (socketId u)) of
                   None \<Rightarrow> st2
                 | Some s \<Rightarrow>
                     st2\<lparr>remoteStreams := AList.delete (PeerId (socketId u)) (remoteStreams st)\<rparr>)
      in (st3, None))"

definition on_receiveOffer :: "nat \<Rightarrow> payload \<Rightarrow> conn_id \<Rightarrow> client \<Rightarrow> client \<times> error option" where
  "on_receiveOffer depth offer frm st =
     (case localStream st of
        None \<Rightarrow> (st, None)
      | Some s \<Rightarrow>
          (case createPeerConnection depth (PeerId frm) (socket st) (Some s) (Some offer) st of
             Inl e \<Rightarrow> (st, Some e)
           | Inr (peer, st1) \<Rightarrow> (st1, None)))"

definition on_receiveAnswer :: "payload \<Rightarrow> conn_id \<Rightarrow> client \<Rightarrow> client \<times> error option" where
  "on_receiveAnswer answer frm st =
     (case map_of (peers st) (PeerId frm) of
        None \<Rightarrow> (st, None)
      | Some peer \<Rightarrow> (st\<lparr>signalled := signalled st @ [(peer, Answer answer)]\<rparr>, None))"

definition on_receiveIceCandidate :: "payload \<Rightarrow> conn_id \<Rightarrow> client \<Rightarrow> client \<times> error option" where
  "on_receiveIceCandidate candidate frm st =
     (case map_of (peers st) (PeerId frm) of
        None \<Rightarrow> (st, None)
      | Some peer \<Rightarrow> (st\<lparr>signalled := signalled st @ [(peer, Candidate candidate)]\<rparr>, None))"

text \<open>The callbacks the component exports (lines 220 to 278). \<^verbatim>\<open>startCall\<close> is given
  the outcome of \<^verbatim>\<open>getUserMedia\<close>; it catches, logs and raises again.\<close>

definition joinRoom_client :: "room_id \<Rightarrow> client \<Rightarrow> client \<times> error option" where
  "joinRoom_client rid st =
     (case (socket st, user st) of
        (Some s, Some uid) \<Rightarrow>
          (st\<lparr>currentRoom := Some rid, sent := sent st @ [EmitJoinRoom rid uid]\<rparr>, None)
      | _ \<Rightarrow> (st, None))"

definition leaveRoom_client :: "client \<Rightarrow> client \<times> error option" where
  "leaveRoom_client st =
     (case (socket st, currentRoom st, user st) of
        (Some s, Some rid, Some uid) \<Rightarrow>
          (let st1 = st\<lparr>sent := sent st @ [EmitLeaveRoom rid uid], currentRoom := None,
                        users_client := [], destroyed := destroyed st \<union> snd ` set (peers st)\<rparr>
           in ((setPeers [] st1)\<lparr>remoteStreams := []\<rparr>, None))
      | _ \<Rightarrow> (st, None))"

definition startCall :: "nat \<Rightarrow> error + stream_ref \<Rightarrow> client \<Rightarrow> client \<times> error option" where
  "startCall depth media st =
     (case media of
        Inl e \<Rightarrow> (st, Some e)
      | Inr s \<Rightarrow>
          (let st1 = st\<lparr>localStream := Some s, isCallActive := True\<rparr>
           in case socket st of
                None \<Rightarrow> (st1, None)
              | Some me \<Rightarrow> createAll depth (users_client st) (Some me) s st1))"

definition endCall :: "client \<Rightarrow> client \<times> error option" where
  "endCall st =
     (case localStream st of
        None \<Rightarrow> (st, None)
      | Some s \<Rightarrow>
          (let st1 = st\<lparr>stopped := insert s (stopped st), localStream := None,
                        isCallActive := False, destroyed := destroyed st \<union> snd ` set (peers st)\<rparr>
           in ((setPeers [] st1)\<lparr>remoteStreams := []\<rparr>, None)))"

text \<open>
  The effect of lines 281 to 289 has the dependencies \<^verbatim>\<open>[localStream, peers]\<close>. React
  runs the cleanup function of an effect when the component unmounts and also before
  it runs the effect again because a dependency changed; the cleanup function is the
  one of the earlier render, so it sees the \<^verbatim>\<open>localStream\<close> and \<^verbatim>\<open>peers\<close> of that
  render: it stops the tracks of that stream and destroys every peer of that
  \<^verbatim>\<open>Map\<close>.
\<close>

definition effectCleanup :: "client \<Rightarrow> client \<Rightarrow> client" where
  "effectCleanup old st =
     st\<lparr>stopped := stopped st \<union> set_option (localStream old),
        destroyed := destroyed st \<union> snd ` set (peers old)\<rparr>"

definition render :: "client \<Rightarrow> client \<Rightarrow> client" where
  "render old new =
     (if localStream new \<noteq> localStream old \<or> peersVersion new \<noteq> peersVersion old
      then effectCleanup old new else new)"

text \<open>An event of the client: a message of the server (they arrive only once the
  socket exists) or a call of an exported callback; then React renders.\<close>

datatype client_event =
    RoomUsersEv "roomMember list"
  | UserJoinedRoomEv roomMember
  | UserLeftRoomEv roomMember
  | ReceiveOfferEv payload conn_id
  | ReceiveAnswerEv payload conn_id
  | ReceiveIceCandidateEv payload conn_id
  | JoinRoomCall room_id
  | LeaveRoomCall
  | StartCall "error + stream_ref"
  | EndCall

fun handle :: "nat \<Rightarrow> client_event \<Rightarrow> client \<Rightarrow> client \<times> error option" where
  "handle depth (JoinRoomCall rid) st = joinRoom_client rid st"
| "handle depth LeaveRoomCall st = leaveRoom_client st"
| "handle depth (StartCall media) st = startCall depth media st"
| "handle depth EndCall st = endCall st"
| "handle depth ev st =
     (if socket st = None then (st, None)
      else case ev of
             RoomUsersEv roomUsers \<Rightarrow> on_roomUsers depth roomUsers st
           | UserJoinedRoomEv u \<Rightarrow> on_userJoinedRoom u st
           | UserLeftRoomEv u \<Rightarrow> on_userLeftRoom u st
           | ReceiveOfferEv offer frm \<Rightarrow> on_receiveOffer depth offer frm st
           | ReceiveAnswerEv answer frm \<Rightarrow> on_receiveAnswer answer frm st
           | ReceiveIceCandidateEv candidate frm \<Rightarrow> on_receiveIceCandidate candidate frm st
           | _ \<Rightarrow> (st, None))"

definition client_step :: "nat \<Rightarrow> client_event \<Rightarrow> client \<Rightarrow> client \<times> error option" where
  "client_step depth ev st = (let (st1, err) = handle depth ev st in (render st st1, err))"

fun client_run :: "nat \<Rightarrow> client_event list \<Rightarrow> client \<Rightarrow> client" where
  "client_run depth [] st = st"
| "client_run depth (ev # evs) st = client_run depth evs (fst (client_step depth ev st))"



section \<open>Lemmas about the server\<close>

lemma find_socket_None: "(List.find (\<lambda>u. socketId u = c) ms = None) = (c \<notin> socketId ` set ms)"
  by (auto simp: find_None_iff)

lemma find_socket_Some: "List.find (\<lambda>u. socketId u = c) ms = Some x \<Longrightarrow> c \<in> socketId ` set ms"
  by (metis find_socket_None option.distinct(1))

lemma cleanupRoom_map_of:
  "map_of (fst (cleanupRoom a c k (rs, ems))) = (map_of rs)(k := purge c (map_of rs k))"
  by (auto simp: cleanupRoom_def room_members_def Let_def update_conv' delete_conv' find_socket_None
      dest: find_socket_Some split: option.splits)

lemma purge_idem: "purge c (purge c x) = purge c x"
  by (cases x) auto

lemma fold_cleanup_map_of:
  "map_of (fst (fold (cleanupRoom a c) ks (rs, ems))) r =
     (if r \<in> set ks then purge c (map_of rs r) else map_of rs r)"
proof (induction ks arbitrary: rs ems)
  case Nil
  then show ?case by simp
next
  case (Cons k ks)
  obtain rs1 ems1 where s: "cleanupRoom a c k (rs, ems) = (rs1, ems1)"
    by (cases "cleanupRoom a c k (rs, ems)")
  have m: "map_of rs1 = (map_of rs)(k := purge c (map_of rs k))"
    using cleanupRoom_map_of [of a c k rs ems] s by simp
  show ?case
    using Cons.IH [of rs1 ems1] by (simp add: s m purge_idem)
qed

lemma target_emit [simp]: "target (emit a t e) = t"
  and event_emit [simp]: "event (emit a t e) = e"
  and receivers_emit [simp]: "receivers (emit a t e) = recipients a t"
  by (simp_all add: emit_def)

lemma cleanupRoom_emissions:
  "snd (cleanupRoom a c k (rs, ems)) = ems @ notice a c k (map_of rs k)"
  by (auto simp: cleanupRoom_def Let_def split: option.splits)

lemma find_filtered [simp]:
  "List.find (\<lambda>u. socketId u = c) (filter (\<lambda>u. socketId u \<noteq> c) ms) = None"
  by (auto simp: find_socket_None)

lemma notice_purge [simp]: "notice a c r (purge c x) = []"
proof (cases x)
  case None
  then show ?thesis by simp
next
  case (Some ms)
  show ?thesis
  proof (cases "c \<in> socketId ` set ms")
    case True
    then show ?thesis using Some by simp
  next
    case False
    then have "List.find (\<lambda>u. socketId u = c) ms = None"
      by (simp add: find_socket_None)
    then show ?thesis using Some False by simp
  qed
qed

lemma filter_notice:
  "filter (\<lambda>e. target e = Broadcast r c) (notice a c k x) = (if k = r then notice a c r x else [])"
  by (cases x) (auto split: option.splits)

lemma fold_cleanup_emissions:
  "filter (\<lambda>e. target e = Broadcast r c) (snd (fold (cleanupRoom a c) ks (rs, ems))) =
     filter (\<lambda>e. target e = Broadcast r c) ems @
       (if r \<in> set ks then notice a c r (map_of rs r) else [])"
proof (induction ks arbitrary: rs ems)
  case Nil
  then show ?case by simp
next
  case (Cons k ks)
  obtain rs1 ems1 where s: "cleanupRoom a c k (rs, ems) = (rs1, ems1)"
    by (cases "cleanupRoom a c k (rs, ems)")
  have m: "map_of rs1 = (map_of rs)(k := purge c (map_of rs k))"
    using cleanupRoom_map_of [of a c k rs ems] s by simp
  have e: "ems1 = ems @ notice a c k (map_of rs k)"
    using cleanupRoom_emissions [of a c k rs ems] s by simp
  show ?case
    using Cons.IH [of rs1 ems1] by (simp add: s m e filter_notice)
qed

lemma fold_cleanup_all_left:
  "\<forall>e \<in> set ems. \<exists>r u. e = emit a (Broadcast r c) (UserLeftRoom \<lparr>socketId = c, userId = u\<rparr>)
   \<Longrightarrow> \<forall>e \<in> set (snd (fold (cleanupRoom a c) ks (rs, ems))).
         \<exists>r u. e = emit a (Broadcast r c) (UserLeftRoom \<lparr>socketId = c, userId = u\<rparr>)"
proof (induction ks arbitrary: rs ems)
  case Nil
  then show ?case by simp
next
  case (Cons k ks)
  obtain rs1 ems1 where s: "cleanupRoom a c k (rs, ems) = (rs1, ems1)"
    by (cases "cleanupRoom a c k (rs, ems)")
  have e: "ems1 = ems @ notice a c k (map_of rs k)"
    using cleanupRoom_emissions [of a c k rs ems] s by simp
  have "\<forall>e \<in> set ems1. \<exists>r u. e = emit a (Broadcast r c) (UserLeftRoom \<lparr>socketId = c, userId = u\<rparr>)"
    using Cons.prems unfolding e by (cases "map_of rs k") (auto split: option.splits)
  then show ?case
    using Cons.IH [of ems1 rs1] by (simp add: s)
qed

lemma cleanupRoom_absent:
  "c \<notin> socketId ` set (room_members rs k) \<Longrightarrow> cleanupRoom a c k (rs, ems) = (rs, ems)"
  by (auto simp: cleanupRoom_def room_members_def find_socket_None dest: find_socket_Some
      split: option.splits)

lemma fold_cleanup_absent:
  "\<forall>k. c \<notin> socketId ` set (room_members rs k) \<Longrightarrow> fold (cleanupRoom a c) ks (rs, ems) = (rs, ems)"
  by (induction ks) (simp_all add: cleanupRoom_absent)

lemma map_of_fst_None: "r \<notin> set (map fst rs) \<Longrightarrow> map_of rs r = None"
  by (simp add: map_of_eq_None_iff)

lemma fold_cleanup_keys:
  "map_of (fst (fold (cleanupRoom a c) (map fst rs) (rs, ems))) r = purge c (map_of rs r)"
  by (cases "r \<in> set (map fst rs)") (simp_all add: fold_cleanup_map_of map_of_fst_None del: set_map)

lemma scenario_rooms [simp]:
  "\<not> inherited ''apt-42''" "\<not> inherited ''r1''" "\<not> inherited ''r2''" "\<not> inherited ''b''"
  "inherited ''constructor''"
  by (simp_all add: inherited_def)

lemma reads_inherited_simps [simp]:
  "\<not> inherited k \<Longrightarrow> reads_inherited rs k = False"
  "inherited k \<Longrightarrow> reads_inherited rs k = (map_of rs k = None)"
  by (simp_all add: reads_inherited_def)

lemma template_raises_from [simp]: "template_raises [frm, Str to] = (\<not> printable frm)"
  by (simp add: template_raises_def)

lemma run_Cons_ok:
  "raised (step x st) = None \<Longrightarrow> run (x # xs) st = run xs (state (step x st))"
  by simp

lemmas server_defs = run_Cons_ok init_def connect_def userJoined_def joinRoom_def sendOffer_def
  sendAnswer_def sendIceCandidate_def leaveRoom_def disconnect_def disconnectCleanup_def
  cleanupRoom_def room_members_def emit_def Let_def

lemma room_members_update [simp]:
  "room_members (AList.update k v rs) r = (if r = k then v else room_members rs r)"
  by (simp add: room_members_def update_conv')

lemma room_members_delete [simp]:
  "room_members (AList.delete k rs) r = (if r = k then [] else room_members rs r)"
  by (simp add: room_members_def delete_conv')

lemma map_of_joinRoom:
  "map_of (rooms (state (joinRoom c rid uid st))) =
     (if reads_inherited (rooms st) rid then map_of (rooms st)
      else (map_of (rooms st))(rid \<mapsto>
             room_members (rooms st) rid @ [\<lparr>socketId = c, userId = uid\<rparr>]))"
  by (auto simp: joinRoom_def Let_def update_conv' room_members_def split: option.splits)

lemma map_of_leaveRoom:
  "map_of (rooms (state (leaveRoom c rid uid st))) =
     (map_of (rooms st))(rid := (case map_of (rooms st) rid of None \<Rightarrow> None
        | Some ms \<Rightarrow> if filter (\<lambda>u. socketId u \<noteq> c) ms = [] then None
                     else Some (filter (\<lambda>u. socketId u \<noteq> c) ms)))"
  by (auto simp: leaveRoom_def reads_inherited_def Let_def update_conv' delete_conv'
      split: option.splits)

lemma map_of_disconnect:
  "map_of (rooms (state (disconnect c st))) r = purge c (map_of (rooms st) r)"
  by (simp add: disconnect_def disconnectCleanup_def Let_def split_def fold_cleanup_keys)

lemma rooms_other [simp]:
  "rooms (state (connect c st)) = rooms st"
  "rooms (state (userJoined c uid st)) = rooms st"
  "rooms (state (sendOffer c p to frm st)) = rooms st"
  "rooms (state (sendAnswer c p to frm st)) = rooms st"
  "rooms (state (sendIceCandidate c p to frm st)) = rooms st"
  by (simp_all add: connect_def userJoined_def sendOffer_def sendAnswer_def sendIceCandidate_def)

lemma purge_Some_nonempty: "purge c x = Some ms \<Longrightarrow> (\<And>ms0. x = Some ms0 \<Longrightarrow> ms0 \<noteq> []) \<Longrightarrow> ms \<noteq> []"
  by (cases x) (auto split: if_splits)

lemma purge_Some_distinct:
  "purge c x = Some ms \<Longrightarrow> (\<And>ms0. x = Some ms0 \<Longrightarrow> distinct (map socketId ms0)) \<Longrightarrow> distinct (map socketId ms)"
  by (cases x) (auto split: if_splits simp: distinct_map_filter)

lemma nonempty_step:
  assumes "nonempty_rooms st"
  shows "nonempty_rooms (state (step x st))"
proof (cases x)
  case (JoinRoom c rid uid)
  then show ?thesis using assms
    by (auto simp: nonempty_rooms_def map_of_joinRoom split: if_splits)
next
  case (LeaveRoom c rid uid)
  then show ?thesis using assms
    by (auto simp: nonempty_rooms_def map_of_leaveRoom split: if_splits option.splits)
next
  case (Disconnect c)
  then show ?thesis using assms
    by (auto simp: nonempty_rooms_def map_of_disconnect dest: purge_Some_nonempty)
qed (use assms in \<open>simp_all add: nonempty_rooms_def\<close>)

lemma nonempty_run: "nonempty_rooms st \<Longrightarrow> nonempty_rooms (run xs st)"
  by (induction xs arbitrary: st) (simp_all add: nonempty_step)

lemma nonempty_init: "nonempty_rooms init"
  by (simp add: nonempty_rooms_def init_def)

lemma distinct_step:
  assumes "distinct_rooms st" and "fresh_joins [x] st"
  shows "distinct_rooms (state (step x st))"
proof (cases x)
  case (JoinRoom c rid uid)
  then show ?thesis using assms
    by (auto simp: distinct_rooms_def map_of_joinRoom room_members_def split: if_splits option.splits)
next
  case (LeaveRoom c rid uid)
  then show ?thesis using assms
    by (auto simp: distinct_rooms_def map_of_leaveRoom distinct_map_filter split: if_splits option.splits)
next
  case (Disconnect c)
  then show ?thesis using assms
    by (auto simp: distinct_rooms_def map_of_disconnect dest: purge_Some_distinct)
qed (use assms in \<open>simp_all add: distinct_rooms_def\<close>)

lemma distinct_run: "distinct_rooms st \<Longrightarrow> fresh_joins xs st \<Longrightarrow> distinct_rooms (run xs st)"
proof (induction xs arbitrary: st)
  case Nil
  then show ?case by simp
next
  case (Cons x xs)
  have "fresh_joins [x] st" using Cons.prems(2) by simp
  with Cons.prems(1) have d: "distinct_rooms (state (step x st))" by (rule distinct_step)
  show ?case
  proof (cases "raised (step x st) = None")
    case True
    then show ?thesis using d Cons.IH Cons.prems(2) by simp
  next
    case False
    then show ?thesis using d by auto
  qed
qed

lemma adapter_disconnect: "adapter (state (disconnect c st)) = (\<lambda>r. adapter st r - {c})"
  by (simp add: disconnect_def disconnectCleanup_def Let_def split_def)

lemma adapter_joinRoom: "adapter (state (joinRoom c rid uid st)) = (adapter st)(rid := insert c (adapter st rid))"
  by (simp add: joinRoom_def Let_def)

lemma adapter_leaveRoom:
  "adapter (state (leaveRoom c rid uid st)) =
     (if reads_inherited (rooms st) rid then adapter st
      else (adapter st)(rid := adapter st rid - {c}))"
  by (simp add: leaveRoom_def Let_def split_def)

lemma members_joinRoom:
  "room_members (rooms (state (joinRoom c rid uid st))) r =
     (if r = rid \<and> \<not> reads_inherited (rooms st) rid
      then room_members (rooms st) rid @ [\<lparr>socketId = c, userId = uid\<rparr>]
      else room_members (rooms st) r)"
  by (simp add: room_members_def map_of_joinRoom)

lemma members_leaveRoom:
  "room_members (rooms (state (leaveRoom c rid uid st))) r =
     (if r = rid then filter (\<lambda>u. socketId u \<noteq> c) (room_members (rooms st) rid)
      else room_members (rooms st) r)"
  by (simp add: room_members_def map_of_leaveRoom split: option.splits)

lemma filter_absent: "c \<notin> socketId ` set ms \<Longrightarrow> filter (\<lambda>u. socketId u \<noteq> c) ms = ms"
  by (induction ms) auto

lemma members_purge:
  "(case purge c x of None \<Rightarrow> [] | Some ms \<Rightarrow> ms) =
     filter (\<lambda>u. socketId u \<noteq> c) (case x of None \<Rightarrow> [] | Some ms \<Rightarrow> ms)"
  by (cases x) (simp_all add: filter_absent)

lemma members_disconnect:
  "room_members (rooms (state (disconnect c st))) r =
     filter (\<lambda>u. socketId u \<noteq> c) (room_members (rooms st) r)"
  by (simp add: room_members_def map_of_disconnect members_purge)

lemma members_in_adapter_step:
  assumes "members_in_adapter st"
  shows "members_in_adapter (state (step x st))"
proof (cases x)
  case (Connect c)
  then show ?thesis using assms
    by (auto simp: members_in_adapter_def connect_def)
next
  case (JoinRoom c rid uid)
  then show ?thesis using assms
    by (auto simp: members_in_adapter_def members_joinRoom adapter_joinRoom)
next
  case (LeaveRoom c rid uid)
  then show ?thesis using assms
    by (auto simp: members_in_adapter_def members_leaveRoom adapter_leaveRoom)
next
  case (Disconnect c)
  then show ?thesis using assms
    by (auto simp: members_in_adapter_def members_disconnect adapter_disconnect)
qed (use assms in \<open>simp_all add: members_in_adapter_def userJoined_def sendOffer_def sendAnswer_def sendIceCandidate_def\<close>)

lemma members_in_adapter_run: "members_in_adapter st \<Longrightarrow> members_in_adapter (run xs st)"
  by (induction xs arbitrary: st) (simp_all add: members_in_adapter_step)

lemma members_in_adapter_init: "members_in_adapter init"
  by (simp add: members_in_adapter_def init_def room_members_def)

lemma joinRoom_emissions:
  "\<not> inherited rid \<Longrightarrow> emitted (joinRoom c rid uid st) =
     [\<lparr>target = ToSender c, receivers = {c},
       event = RoomUsers (filter (\<lambda>u. socketId u \<noteq> c) (room_members (rooms st) rid))\<rparr>,
      \<lparr>target = Broadcast rid c, receivers = adapter st rid - {c},
       event = UserJoinedRoom \<lparr>socketId = c, userId = uid\<rparr>\<rparr>]"
  by (auto simp: joinRoom_def reads_inherited_def Let_def emit_def room_members_def update_conv'
      split: option.splits)

lemma disconnect_emissions:
  "filter (\<lambda>e. target e = Broadcast r c) (emitted (disconnect c st)) =
     notice (\<lambda>r. adapter st r - {c}) c r (map_of (rooms st) r)"
proof (cases "r \<in> set (map fst (rooms st))")
  case True
  then show ?thesis
    by (simp add: disconnect_def disconnectCleanup_def Let_def split_def fold_cleanup_emissions del: set_map)
next
  case False
  then have "map_of (rooms st) r = None" by (rule map_of_fst_None)
  then show ?thesis using False
    by (simp add: disconnect_def disconnectCleanup_def Let_def split_def fold_cleanup_emissions del: set_map)
qed

lemma length_notice:
  "length (notice a c r x) = (if c \<in> socketId ` set (case x of None \<Rightarrow> [] | Some ms \<Rightarrow> ms) then 1 else 0)"
proof (cases x)
  case None
  then show ?thesis by simp
next
  case (Some ms)
  show ?thesis
  proof (cases "List.find (\<lambda>u. socketId u = c) ms")
    case None
    then show ?thesis using Some by (simp add: find_socket_None [symmetric])
  next
    case (Some u)
    then have "c \<in> socketId ` set ms" by (rule find_socket_Some)
    then show ?thesis using Some \<open>x = Some ms\<close> by simp
  qed
qed

lemma disconnect_all_left:
  "\<forall>e \<in> set (emitted (disconnect c st)).
     \<exists>r u. e = emit (\<lambda>r. adapter st r - {c}) (Broadcast r c) (UserLeftRoom \<lparr>socketId = c, userId = u\<rparr>)"
  using fold_cleanup_all_left [of "[]" "\<lambda>r. adapter st r - {c}" c "map fst (rooms st)" "rooms st"]
  by (simp add: disconnect_def disconnectCleanup_def Let_def split_def)

lemma disconnect_absent:
  "\<forall>r. c \<notin> socketId ` set (room_members (rooms st) r) \<Longrightarrow> rooms (state (disconnect c st)) = rooms st"
  by (simp add: disconnect_def disconnectCleanup_def Let_def split_def fold_cleanup_absent)

lemma purge_emptied:
  "c \<in> socketId ` set (case x of None \<Rightarrow> [] | Some ms \<Rightarrow> ms) \<Longrightarrow>
   filter (\<lambda>u. socketId u \<noteq> c) (case x of None \<Rightarrow> [] | Some ms \<Rightarrow> ms) = [] \<Longrightarrow> purge c x = None"
  by (cases x) auto

lemma purge_untouched:
  "c \<notin> socketId ` set (case x of None \<Rightarrow> [] | Some ms \<Rightarrow> ms) \<Longrightarrow> purge c x = x"
  by (cases x) auto

text \<open>Whatever \<^verbatim>\<open>from\<close> the sender supplied, a message that a relay handler emits
  carries the sender's socket id.\<close>

lemma relayed_from_sender:
  "e \<in> set (emitted (sendOffer c p to frm st)) \<Longrightarrow> event_from (event e) = Some c"
  "e \<in> set (emitted (sendAnswer c p to frm st)) \<Longrightarrow> event_from (event e) = Some c"
  "e \<in> set (emitted (sendIceCandidate c p to frm st)) \<Longrightarrow> event_from (event e) = Some c"
  by (auto simp: sendOffer_def sendAnswer_def sendIceCandidate_def split: if_splits)

text \<open>Among the \<^verbatim>\<open>from\<close> values that have a conversion to a string, nothing depends
  on the value: two runs that differ only in them end in the same state and emit the
  same messages to the same sockets.\<close>

lemma step_same_but_from: "same_but_from x y \<Longrightarrow> step x st = step y st"
  by (cases x) (auto simp: sendOffer_def sendAnswer_def sendIceCandidate_def)

lemma run_trace_same_from:
  "list_all2 same_but_from xs ys \<Longrightarrow> run xs st = run ys st \<and> trace xs st = trace ys st"
proof (induction xs ys arbitrary: st rule: list_all2_induct)
  case Nil
  then show ?case by simp
next
  case (Cons x xs y ys)
  have "step x st = step y st" using Cons.hyps(1) by (rule step_same_but_from)
  then show ?case using Cons.IH by simp
qed

lemma own_room_step:
  assumes "b \<in> adapter st b" and "keeps_own_room b x"
  shows "b \<in> adapter (state (step x st)) b"
proof (cases x)
  case (Connect c)
  then show ?thesis using assms by (simp add: connect_def)
next
  case (JoinRoom c rid uid)
  then show ?thesis using assms by (auto simp: adapter_joinRoom)
next
  case (LeaveRoom c rid uid)
  then show ?thesis using assms by (auto simp: adapter_leaveRoom)
next
  case (Disconnect c)
  then show ?thesis using assms by (simp add: adapter_disconnect)
qed (use assms in \<open>simp_all add: userJoined_def sendOffer_def sendAnswer_def sendIceCandidate_def\<close>)

lemma own_room_run:
  "b \<in> adapter st b \<Longrightarrow> list_all (keeps_own_room b) xs \<Longrightarrow> b \<in> adapter (run xs st) b"
proof (induction xs arbitrary: st)
  case Nil
  then show ?case by simp
next
  case (Cons x xs)
  have "b \<in> adapter (state (step x st)) b"
    using Cons.prems by (simp add: own_room_step)
  then show ?case using Cons.IH Cons.prems(2) by simp
qed

lemma own_room_connect: "b \<in> adapter (state (connect b st)) b"
  by (simp add: connect_def)

section \<open>Lemmas about the client\<close>



lemma render_same [simp]: "render st st = st"
  by (simp add: render_def)


lemmas client_defs = client_init_def setPeers_def on_roomUsers_def on_userJoinedRoom_def
  on_userLeftRoom_def on_receiveOffer_def on_receiveAnswer_def on_receiveIceCandidate_def
  joinRoom_client_def leaveRoom_client_def startCall_def endCall_def effectCleanup_def
  render_def client_step_def Let_def



lemma peers_render [simp]: "peers (render old new) = peers new"
  and signalled_render [simp]: "signalled (render old new) = signalled new"
  by (simp_all add: render_def effectCleanup_def)








section \<open>The claims about the server\<close>

text \<open>
  C1 (as amended). For every sequence of operations applied to the initially empty
  registry, a room id is present in the registry if and only if its member list is not
  empty; and when no socket joins a room that already holds an entry of it, no room's
  member list holds two entries with the same socket id.
\<close>

theorem registry_invariant:
  "(map_of (rooms (run xs init)) r \<noteq> None) = (room_members (rooms (run xs init)) r \<noteq> [])
   \<and> (fresh_joins xs init \<longrightarrow> distinct (map socketId (room_members (rooms (run xs init)) r)))"
proof -
  have n: "nonempty_rooms (run xs init)" by (simp add: nonempty_run nonempty_init)
  have d: "fresh_joins xs init \<Longrightarrow> distinct_rooms (run xs init)"
    by (rule distinct_run) (simp_all add: distinct_rooms_def init_def)
  show ?thesis
    using n d by (auto simp: nonempty_rooms_def distinct_rooms_def room_members_def split: option.splits)
qed

text \<open>The invariant at a run with two joins and a leave.\<close>

theorem registry_invariant_witness:
  "fresh_joins [Connect ''c1'', JoinRoom ''c1'' ''apt-42'' ''u1'', Connect ''c2'',
       JoinRoom ''c2'' ''apt-42'' ''u2'', LeaveRoom ''c1'' ''apt-42'' ''u1''] init
   \<and> map_of (rooms (run [Connect ''c1'', JoinRoom ''c1'' ''apt-42'' ''u1'', Connect ''c2'',
       JoinRoom ''c2'' ''apt-42'' ''u2'', LeaveRoom ''c1'' ''apt-42'' ''u1''] init)) ''apt-42'' \<noteq> None
   \<and> distinct (map socketId (room_members (rooms (run [Connect ''c1'', JoinRoom ''c1'' ''apt-42'' ''u1'', Connect ''c2'',
       JoinRoom ''c2'' ''apt-42'' ''u2'', LeaveRoom ''c1'' ''apt-42'' ''u1''] init)) ''apt-42''))"
proof -
  have f: "fresh_joins [Connect ''c1'', JoinRoom ''c1'' ''apt-42'' ''u1'', Connect ''c2'',
       JoinRoom ''c2'' ''apt-42'' ''u2'', LeaveRoom ''c1'' ''apt-42'' ''u1''] init"
    by (simp add: server_defs del: run.simps(2))
  have m: "room_members (rooms (run [Connect ''c1'', JoinRoom ''c1'' ''apt-42'' ''u1'', Connect ''c2'',
       JoinRoom ''c2'' ''apt-42'' ''u2'', LeaveRoom ''c1'' ''apt-42'' ''u1''] init)) ''apt-42'' \<noteq> []"
    by (simp add: server_defs del: run.simps(2))
  show ?thesis
    using f m registry_invariant [of "[Connect ''c1'', JoinRoom ''c1'' ''apt-42'' ''u1'', Connect ''c2'',
       JoinRoom ''c2'' ''apt-42'' ''u2'', LeaveRoom ''c1'' ''apt-42'' ''u1'']" "''apt-42''"]
    by blast
qed

text \<open>C1 as stated fails: \<^verbatim>\<open>joinRoom\<close> pushes without looking for an entry of the
  socket, so a socket that joins the same room twice is in its member list twice.\<close>

theorem duplicate_member_counterexample:
  "\<not> distinct (map socketId (room_members (rooms (run
      [Connect ''c1'', JoinRoom ''c1'' ''apt-42'' ''u1'', JoinRoom ''c1'' ''apt-42'' ''u1''] init)) ''apt-42''))"
  by (simp add: server_defs del: run.simps(2))

text \<open>
  C2. \<^verbatim>\<open>sendOffer\<close> and \<^verbatim>\<open>sendAnswer\<close> interpolate the \<^verbatim>\<open>from\<close> the
  sender supplied into a log line before they emit. With \<^verbatim>\<open>from: "forged"\<close> the
  addressee receives the offer with the sender's socket id as \<^verbatim>\<open>from\<close>. With
  \<^verbatim>\<open>from: {toString: 1}\<close>, a value with no conversion to a string, the same send
  raises \<^verbatim>\<open>TypeError\<close> and nothing is delivered, now or later in the run: the two
  sends differ only in the \<^verbatim>\<open>from\<close> supplied and their deliveries differ.
  \<^verbatim>\<open>sendIceCandidate\<close>, which logs nothing, relays the candidate with the same
  \<^verbatim>\<open>from\<close> supplied.
\<close>

theorem unprintable_from_raises:
  "\<not> printable (Obj [(''toString'', Num 1)])
   \<and> trace [Connect ''a'', Connect ''b'', SendOffer ''a'' ''sdp'' ''b'' (Str ''forged'')] init
     = [\<lparr>target = ToRoom ''b'', receivers = {''b''}, event = ReceiveOffer ''sdp'' ''a''\<rparr>]
   \<and> trace [Connect ''a'', Connect ''b'', SendOffer ''a'' ''sdp'' ''b'' (Obj [(''toString'', Num 1)]),
        SendOffer ''a'' ''sdp'' ''b'' (Str ''forged'')] init = []
   \<and> sendOffer ''a'' ''sdp'' ''b'' (Obj [(''toString'', Num 1)]) (run [Connect ''a'', Connect ''b''] init)
     = \<lparr>state = run [Connect ''a'', Connect ''b''] init, emitted = [], raised = Some TypeError\<rparr>
   \<and> sendAnswer ''a'' ''sdp'' ''b'' (Obj [(''toString'', Num 1)]) (run [Connect ''a'', Connect ''b''] init)
     = \<lparr>state = run [Connect ''a'', Connect ''b''] init, emitted = [], raised = Some TypeError\<rparr>
   \<and> emitted (sendAnswer ''a'' ''sdp'' ''b'' (Str ''forged'') (run [Connect ''a'', Connect ''b''] init))
     = [\<lparr>target = ToRoom ''b'', receivers = {''b''}, event = ReceiveAnswer ''sdp'' ''a''\<rparr>]
   \<and> emitted (sendIceCandidate ''a'' ''cand'' ''b'' (Obj [(''toString'', Num 1)])
        (run [Connect ''a'', Connect ''b''] init))
     = [\<lparr>target = ToRoom ''b'', receivers = {''b''}, event = ReceiveIceCandidate ''cand'' ''a''\<rparr>]"
  by (simp add: server_defs del: run.simps(2))

text \<open>
  C3 (as amended). In every reachable state, \<^verbatim>\<open>joinRoom\<close> with a room id that is
  not an inherited name raises nothing and sends the joiner, and
  only the joiner, the entries the room held before the join under other socket ids
  (all of them when the joiner had no entry in the room), and every socket that had an
  entry in the room before the join under another id receives the
  \<^verbatim>\<open>userJoinedRoom\<close> message with the joiner's socket id and user id exactly once.
  Both are computed from the one state the handler started in. The handler emits
  these two messages and no other: the reply to the joiner's socket alone, the
  \<^verbatim>\<open>userJoinedRoom\<close> message to the sockets of the socket.io room other than the
  joiner.
\<close>

theorem join_views:
  assumes "\<not> inherited rid"
  shows "raised (joinRoom c rid uid (run xs init)) = None
   \<and> map event (filter (\<lambda>e. c \<in> receivers e) (emitted (joinRoom c rid uid (run xs init))))
     = [RoomUsers (filter (\<lambda>u. socketId u \<noteq> c) (room_members (rooms (run xs init)) rid))]
   \<and> (c \<notin> socketId ` set (room_members (rooms (run xs init)) rid) \<longrightarrow>
        map event (filter (\<lambda>e. c \<in> receivers e) (emitted (joinRoom c rid uid (run xs init))))
          = [RoomUsers (room_members (rooms (run xs init)) rid)])
   \<and> (\<forall>m \<in> set (room_members (rooms (run xs init)) rid). socketId m \<noteq> c \<longrightarrow>
        length (filter (\<lambda>e. socketId m \<in> receivers e
                  \<and> event e = UserJoinedRoom \<lparr>socketId = c, userId = uid\<rparr>)
          (emitted (joinRoom c rid uid (run xs init)))) = 1)
   \<and> (\<forall>e \<in> set (emitted (joinRoom c rid uid (run xs init))).
        roomUsers_of (event e) \<noteq> None \<longrightarrow> receivers e = {c})
   \<and> emitted (joinRoom c rid uid (run xs init))
     = [\<lparr>target = ToSender c, receivers = {c},
         event = RoomUsers (filter (\<lambda>u. socketId u \<noteq> c) (room_members (rooms (run xs init)) rid))\<rparr>,
        \<lparr>target = Broadcast rid c, receivers = adapter (run xs init) rid - {c},
         event = UserJoinedRoom \<lparr>socketId = c, userId = uid\<rparr>\<rparr>]"
proof -
  let ?st = "run xs init"
  have inv: "members_in_adapter ?st"
    by (simp add: members_in_adapter_run members_in_adapter_init)
  have r: "raised (joinRoom c rid uid ?st) = None"
    using assms by (simp add: joinRoom_def reads_inherited_def Let_def)
  have a: "map event (filter (\<lambda>e. c \<in> receivers e) (emitted (joinRoom c rid uid ?st)))
     = [RoomUsers (filter (\<lambda>u. socketId u \<noteq> c) (room_members (rooms ?st) rid))]"
    using assms by (simp add: joinRoom_emissions)
  have b: "socketId m \<in> adapter ?st rid" if "m \<in> set (room_members (rooms ?st) rid)" for m
    using inv that by (auto simp: members_in_adapter_def)
  show ?thesis
    using assms r a filter_absent [of c "room_members (rooms ?st) rid"] b
    by (auto simp: joinRoom_emissions)
qed

text \<open>The scenario of the specification: Y joins the room X is in.\<close>

theorem join_views_witness:
  "\<not> inherited ''apt-42''
   \<and> room_members (rooms (run [Connect ''x'', JoinRoom ''x'' ''apt-42'' ''ux'', Connect ''y''] init)) ''apt-42''
     = [\<lparr>socketId = ''x'', userId = ''ux''\<rparr>]
   \<and> map event (filter (\<lambda>e. ''y'' \<in> receivers e) (emitted (joinRoom ''y'' ''apt-42'' ''uy''
         (run [Connect ''x'', JoinRoom ''x'' ''apt-42'' ''ux'', Connect ''y''] init))))
     = [RoomUsers [\<lparr>socketId = ''x'', userId = ''ux''\<rparr>]]
   \<and> length (filter (\<lambda>e. ''x'' \<in> receivers e
                  \<and> event e = UserJoinedRoom \<lparr>socketId = ''y'', userId = ''uy''\<rparr>)
          (emitted (joinRoom ''y'' ''apt-42'' ''uy''
             (run [Connect ''x'', JoinRoom ''x'' ''apt-42'' ''ux'', Connect ''y''] init)))) = 1
   \<and> filter (\<lambda>e. ''x'' \<in> receivers e \<and> roomUsers_of (event e) \<noteq> None)
          (emitted (joinRoom ''y'' ''apt-42'' ''uy''
             (run [Connect ''x'', JoinRoom ''x'' ''apt-42'' ''ux'', Connect ''y''] init))) = []
   \<and> map receivers (emitted (joinRoom ''y'' ''apt-42'' ''uy''
             (run [Connect ''x'', JoinRoom ''x'' ''apt-42'' ''ux'', Connect ''y''] init)))
     = [{''y''}, {''x''}]"
proof -
  have h: "\<not> inherited ''apt-42''"
    by simp
  have a: "adapter (run [Connect ''x'', JoinRoom ''x'' ''apt-42'' ''ux'', Connect ''y''] init) ''apt-42''
     = {''x''}"
    by (simp add: server_defs del: run.simps(2))
  have m: "room_members (rooms (run [Connect ''x'', JoinRoom ''x'' ''apt-42'' ''ux'', Connect ''y''] init)) ''apt-42''
     = [\<lparr>socketId = ''x'', userId = ''ux''\<rparr>]"
    by (simp add: server_defs del: run.simps(2))
  show ?thesis
    using h join_views [OF h, where c = "''y''" and uid = "''uy''"
        and xs = "[Connect ''x'', JoinRoom ''x'' ''apt-42'' ''ux'', Connect ''y'']"]
    unfolding m a by simp
qed

text \<open>C3 as stated fails when the joiner already has an entry in the room: the reply
  leaves the joiner's own entry out of the members the room had before the join. It
  also fails on a room id that is an inherited name: the handler raises and sends
  nothing.\<close>

theorem rejoin_counterexample:
  "room_members (rooms (run [Connect ''c1'', JoinRoom ''c1'' ''apt-42'' ''u1''] init)) ''apt-42''
     = [\<lparr>socketId = ''c1'', userId = ''u1''\<rparr>]
   \<and> map event (filter (\<lambda>e. ''c1'' \<in> receivers e)
        (emitted (joinRoom ''c1'' ''apt-42'' ''u1''
           (run [Connect ''c1'', JoinRoom ''c1'' ''apt-42'' ''u1''] init))))
     = [RoomUsers []]
   \<and> raised (joinRoom ''c1'' ''constructor'' ''u1''
        (run [Connect ''c1'', JoinRoom ''c1'' ''apt-42'' ''u1''] init)) = Some TypeError
   \<and> emitted (joinRoom ''c1'' ''constructor'' ''u1''
        (run [Connect ''c1'', JoinRoom ''c1'' ''apt-42'' ''u1''] init)) = []"
  by (simp add: server_defs del: run.simps(2))

text \<open>
  C4. \<^verbatim>\<open>leaveRoom\<close> of a socket that has no entry in an existing room: the registry
  keeps its entries, but the members of the room are sent a \<^verbatim>\<open>userLeftRoom\<close>
  message for the socket that was never in it. (The \<^verbatim>\<open>disconnect\<close> handler looks
  for an entry of the socket before it notifies; \<^verbatim>\<open>leaveRoom\<close> does not.) And
  \<^verbatim>\<open>leaveRoom\<close> of a room id that is unknown to the registry but is a name every
  object inherits raises.
\<close>

theorem leave_nonmember_notifies:
  "''c2'' \<notin> socketId ` set (room_members (rooms (run
        [Connect ''c1'', Connect ''c2'', JoinRoom ''c1'' ''apt-42'' ''u1''] init)) ''apt-42'')
   \<and> emitted (leaveRoom ''c2'' ''apt-42'' ''u2''
        (run [Connect ''c1'', Connect ''c2'', JoinRoom ''c1'' ''apt-42'' ''u1''] init))
     = [\<lparr>target = Broadcast ''apt-42'' ''c2'', receivers = {''c1''},
         event = UserLeftRoom \<lparr>socketId = ''c2'', userId = ''u2''\<rparr>\<rparr>]
   \<and> map_of (rooms (run
        [Connect ''c1'', Connect ''c2'', JoinRoom ''c1'' ''apt-42'' ''u1''] init)) ''constructor'' = None
   \<and> raised (leaveRoom ''c2'' ''constructor'' ''u2''
        (run [Connect ''c1'', Connect ''c2'', JoinRoom ''c1'' ''apt-42'' ''u1''] init))
     = Some TypeError"
  by (simp add: server_defs del: run.simps(2))

text \<open>
  C5. \<^verbatim>\<open>disconnect\<close> of socket \<open>c\<close>, from any state: afterwards no room holds an entry
  of \<open>c\<close>; for each room exactly one message was emitted to it if it held an entry
  of \<open>c\<close> and none otherwise, and every emitted message is a \<^verbatim>\<open>userLeftRoom\<close> for
  \<open>c\<close>; a room that the removal empties is deleted; every room keeps its other
  entries, and a room without an entry of \<open>c\<close> is untouched; the loop leaves \<^verbatim>\<open>users\<close>
  as it was and the handler deletes the entry of \<open>c\<close> after it; and when no room
  holds an entry of \<open>c\<close> the registry is unchanged.
\<close>

theorem disconnect_cleanup:
  "(\<forall>r. c \<notin> socketId ` set (room_members (rooms (state (disconnect c st))) r))
   \<and> (\<forall>r. length (filter (\<lambda>e. target e = Broadcast r c) (emitted (disconnect c st)))
           = (if c \<in> socketId ` set (room_members (rooms st) r) then 1 else 0))
   \<and> (\<forall>e \<in> set (emitted (disconnect c st)).
         \<exists>r u. target e = Broadcast r c \<and> event e = UserLeftRoom \<lparr>socketId = c, userId = u\<rparr>)
   \<and> (\<forall>r. c \<in> socketId ` set (room_members (rooms st) r)
           \<and> filter (\<lambda>u. socketId u \<noteq> c) (room_members (rooms st) r) = []
         \<longrightarrow> map_of (rooms (state (disconnect c st))) r = None)
   \<and> (\<forall>r. room_members (rooms (state (disconnect c st))) r
           = filter (\<lambda>u. socketId u \<noteq> c) (room_members (rooms st) r))
   \<and> (\<forall>r. c \<notin> socketId ` set (room_members (rooms st) r)
         \<longrightarrow> map_of (rooms (state (disconnect c st))) r = map_of (rooms st) r)
   \<and> users (fst (disconnectCleanup c st)) = users st
   \<and> users (state (disconnect c st)) = (users st)(c := None)
   \<and> ((\<forall>r. c \<notin> socketId ` set (room_members (rooms st) r))
         \<longrightarrow> rooms (state (disconnect c st)) = rooms st)"
proof (intro conjI allI impI)
  fix r
  show "c \<notin> socketId ` set (room_members (rooms (state (disconnect c st))) r)"
    by (auto simp: members_disconnect)
  show "length (filter (\<lambda>e. target e = Broadcast r c) (emitted (disconnect c st)))
           = (if c \<in> socketId ` set (room_members (rooms st) r) then 1 else 0)"
    by (simp add: disconnect_emissions length_notice room_members_def)
  show "room_members (rooms (state (disconnect c st))) r
           = filter (\<lambda>u. socketId u \<noteq> c) (room_members (rooms st) r)"
    by (rule members_disconnect)
next
  show "\<forall>e \<in> set (emitted (disconnect c st)).
         \<exists>r u. target e = Broadcast r c \<and> event e = UserLeftRoom \<lparr>socketId = c, userId = u\<rparr>"
    using disconnect_all_left [of c st] by fastforce
next
  fix r
  assume "c \<in> socketId ` set (room_members (rooms st) r)
           \<and> filter (\<lambda>u. socketId u \<noteq> c) (room_members (rooms st) r) = []"
  then show "map_of (rooms (state (disconnect c st))) r = None"
    by (simp add: map_of_disconnect purge_emptied room_members_def)
next
  fix r
  assume "c \<notin> socketId ` set (room_members (rooms st) r)"
  then show "map_of (rooms (state (disconnect c st))) r = map_of (rooms st) r"
    by (simp add: map_of_disconnect purge_untouched room_members_def)
next
  show "users (fst (disconnectCleanup c st)) = users st"
    by (simp add: disconnectCleanup_def Let_def split_def)
  show "users (state (disconnect c st)) = (users st)(c := None)"
    by (simp add: disconnect_def disconnectCleanup_def Let_def split_def)
next
  assume "\<forall>r. c \<notin> socketId ` set (room_members (rooms st) r)"
  then show "rooms (state (disconnect c st)) = rooms st"
    by (rule disconnect_absent)
qed

text \<open>A socket in two rooms, one of which it is alone in.\<close>

theorem disconnect_cleanup_witness:
  "''x'' \<in> socketId ` set (room_members (rooms (run [Connect ''x'', Connect ''y'',
       JoinRoom ''x'' ''r1'' ''ux'', JoinRoom ''y'' ''r1'' ''uy'', JoinRoom ''x'' ''r2'' ''ux''] init)) ''r1'')
   \<and> length (filter (\<lambda>e. target e = Broadcast ''r1'' ''x'') (emitted (disconnect ''x''
        (run [Connect ''x'', Connect ''y'',
       JoinRoom ''x'' ''r1'' ''ux'', JoinRoom ''y'' ''r1'' ''uy'', JoinRoom ''x'' ''r2'' ''ux''] init)))) = 1
   \<and> length (filter (\<lambda>e. target e = Broadcast ''r2'' ''x'') (emitted (disconnect ''x''
        (run [Connect ''x'', Connect ''y'',
       JoinRoom ''x'' ''r1'' ''ux'', JoinRoom ''y'' ''r1'' ''uy'', JoinRoom ''x'' ''r2'' ''ux''] init)))) = 1
   \<and> map_of (rooms (state (disconnect ''x'' (run [Connect ''x'', Connect ''y'',
       JoinRoom ''x'' ''r1'' ''ux'', JoinRoom ''y'' ''r1'' ''uy'', JoinRoom ''x'' ''r2'' ''ux''] init)))) ''r2'' = None
   \<and> room_members (rooms (state (disconnect ''x'' (run [Connect ''x'', Connect ''y'',
       JoinRoom ''x'' ''r1'' ''ux'', JoinRoom ''y'' ''r1'' ''uy'', JoinRoom ''x'' ''r2'' ''ux''] init)))) ''r1''
       = [\<lparr>socketId = ''y'', userId = ''uy''\<rparr>]"
proof -
  let ?st = "run [Connect ''x'', Connect ''y'',
       JoinRoom ''x'' ''r1'' ''ux'', JoinRoom ''y'' ''r1'' ''uy'', JoinRoom ''x'' ''r2'' ''ux''] init"
  have m1: "room_members (rooms ?st) ''r1'' = [\<lparr>socketId = ''x'', userId = ''ux''\<rparr>, \<lparr>socketId = ''y'', userId = ''uy''\<rparr>]"
    by (simp add: server_defs del: run.simps(2))
  have m2: "room_members (rooms ?st) ''r2'' = [\<lparr>socketId = ''x'', userId = ''ux''\<rparr>]"
    by (simp add: server_defs del: run.simps(2))
  note t = disconnect_cleanup [of "''x''" ?st]
  note count = t [THEN conjunct2, THEN conjunct1, THEN spec]
  note emptied = t [THEN conjunct2, THEN conjunct2, THEN conjunct2, THEN conjunct1, THEN spec]
  note rest = t [THEN conjunct2, THEN conjunct2, THEN conjunct2, THEN conjunct2, THEN conjunct1,
      THEN spec]
  have a: "length (filter (\<lambda>e. target e = Broadcast ''r1'' ''x'') (emitted (disconnect ''x'' ?st))) = 1"
    using count [of "''r1''"] m1 by simp
  have b: "length (filter (\<lambda>e. target e = Broadcast ''r2'' ''x'') (emitted (disconnect ''x'' ?st))) = 1"
    using count [of "''r2''"] m2 by simp
  have e: "map_of (rooms (state (disconnect ''x'' ?st))) ''r2'' = None"
    using emptied [of "''r2''"] m2 by simp
  have f: "room_members (rooms (state (disconnect ''x'' ?st))) ''r1'' = [\<lparr>socketId = ''y'', userId = ''uy''\<rparr>]"
    using rest [of "''r1''"] m1 by simp
  show ?thesis using a b e f m1 by simp
qed

text \<open>
  C9 (as amended). \<^verbatim>\<open>userJoined\<close> binds the user id to the sending socket, in place
  of that socket's earlier binding, and changes the binding of no other socket.
\<close>

theorem identity_binding:
  "users (state (userJoined c uid st)) c = Some uid
   \<and> (\<forall>c'. c' \<noteq> c \<longrightarrow> users (state (userJoined c uid st)) c' = users st c')"
  by (simp add: userJoined_def)

text \<open>A second \<^verbatim>\<open>userJoined\<close> on one socket, while another socket is bound.\<close>

theorem identity_binding_witness:
  "users (state (userJoined ''c2'' ''bob'' (run [Connect ''c1'', Connect ''c2'',
       UserJoined ''c1'' ''alice'', UserJoined ''c2'' ''alice''] init))) ''c2'' = Some ''bob''
   \<and> users (state (userJoined ''c2'' ''bob'' (run [Connect ''c1'', Connect ''c2'',
       UserJoined ''c1'' ''alice'', UserJoined ''c2'' ''alice''] init))) ''c1'' = Some ''alice''"
  using identity_binding [of "''c2''" "''bob''" "run [Connect ''c1'', Connect ''c2'',
       UserJoined ''c1'' ''alice'', UserJoined ''c2'' ''alice''] init"]
  by (simp add: server_defs del: run.simps(2))

text \<open>C9 as stated fails: \<^verbatim>\<open>users\<close> is keyed by socket id, so two connected
  sockets can be bound to one user id at the same time.\<close>

theorem shared_identity_counterexample:
  "users (run [Connect ''c1'', Connect ''c2'', UserJoined ''c1'' ''alice'',
       UserJoined ''c2'' ''alice''] init) ''c1'' = Some ''alice''
   \<and> users (run [Connect ''c1'', Connect ''c2'', UserJoined ''c1'' ''alice'',
       UserJoined ''c2'' ''alice''] init) ''c2'' = Some ''alice''
   \<and> {''c1'', ''c2''} \<subseteq> connected (run [Connect ''c1'', Connect ''c2'', UserJoined ''c1'' ''alice'',
       UserJoined ''c2'' ''alice''] init)"
  by (simp add: server_defs del: run.simps(2))

text \<open>
  C10 (as amended). A socket \<open>b\<close> that has connected and has since neither
  disconnected nor sent \<^verbatim>\<open>leaveRoom\<close> with its own id as room id is in the socket.io
  room of its own id, and receives every offer, answer and candidate that any sender
  addresses to it. A relayed message is delivered to exactly the sockets of the
  socket.io room named by \<^verbatim>\<open>to\<close>, and the same whatever the registry and the
  identity map hold. (For an offer and an answer: with a \<^verbatim>\<open>from\<close> supplied that has
  a conversion to a string, which every string has; a candidate is relayed with any
  \<^verbatim>\<open>from\<close>.)
\<close>

theorem relay_addressing:
  assumes "list_all (keeps_own_room b) xs" and "printable frm"
  shows "b \<in> adapter (run (Connect b # xs) st) b
       \<and> map event (filter (\<lambda>e. b \<in> receivers e)
           (emitted (sendOffer a p b frm (run (Connect b # xs) st)))) = [ReceiveOffer p a]
       \<and> map event (filter (\<lambda>e. b \<in> receivers e)
           (emitted (sendAnswer a p b frm (run (Connect b # xs) st)))) = [ReceiveAnswer p a]
       \<and> map event (filter (\<lambda>e. b \<in> receivers e)
           (emitted (sendIceCandidate a p b frm' (run (Connect b # xs) st))))
          = [ReceiveIceCandidate p a]
       \<and> map receivers (emitted (sendOffer a p to frm st')) = [adapter st' to]
       \<and> map receivers (emitted (sendAnswer a p to frm st')) = [adapter st' to]
       \<and> map receivers (emitted (sendIceCandidate a p to frm' st')) = [adapter st' to]
       \<and> emitted (sendOffer a p to frm (st'\<lparr>users := U, rooms := R\<rparr>))
          = emitted (sendOffer a p to frm st')
       \<and> emitted (sendAnswer a p to frm (st'\<lparr>users := U, rooms := R\<rparr>))
          = emitted (sendAnswer a p to frm st')
       \<and> emitted (sendIceCandidate a p to frm' (st'\<lparr>users := U, rooms := R\<rparr>))
          = emitted (sendIceCandidate a p to frm' st')"
proof -
  have "b \<in> adapter (run xs (state (connect b st))) b"
    using own_room_connect assms(1) by (rule own_room_run)
  then have o: "b \<in> adapter (run (Connect b # xs) st) b"
    by (simp add: connect_def)
  show ?thesis
    using o assms(2) by (simp add: sendOffer_def sendAnswer_def sendIceCandidate_def)
qed

text \<open>Two sockets that share no room, the sender without a user id.\<close>

theorem relay_addressing_witness:
  "list_all (keeps_own_room ''b'') [Connect ''a'', JoinRoom ''a'' ''apt-42'' ''ua'']
   \<and> printable (Str ''forged'')
   \<and> users (run [Connect ''b'', Connect ''a'', JoinRoom ''a'' ''apt-42'' ''ua''] init) ''a'' = None
   \<and> room_members (rooms (run [Connect ''b'', Connect ''a'', JoinRoom ''a'' ''apt-42'' ''ua''] init))
        ''apt-42'' = [\<lparr>socketId = ''a'', userId = ''ua''\<rparr>]
   \<and> map event (filter (\<lambda>e. ''b'' \<in> receivers e)
         (emitted (sendOffer ''a'' ''sdp'' ''b'' (Str ''forged'')
            (run [Connect ''b'', Connect ''a'', JoinRoom ''a'' ''apt-42'' ''ua''] init))))
     = [ReceiveOffer ''sdp'' ''a'']"
proof -
  have h: "list_all (keeps_own_room ''b'') [Connect ''a'', JoinRoom ''a'' ''apt-42'' ''ua'']"
    by simp
  have q: "printable (Str ''forged'')"
    by simp
  have u: "users (run [Connect ''b'', Connect ''a'', JoinRoom ''a'' ''apt-42'' ''ua''] init) ''a'' = None"
    by (simp add: server_defs del: run.simps(2))
  have m: "room_members (rooms (run [Connect ''b'', Connect ''a'', JoinRoom ''a'' ''apt-42'' ''ua''] init))
        ''apt-42'' = [\<lparr>socketId = ''a'', userId = ''ua''\<rparr>]"
    by (simp add: server_defs del: run.simps(2))
  note n = relay_addressing [OF h q, where a = "''a''" and p = "''sdp''"
      and st = init, THEN conjunct2, THEN conjunct1]
  show ?thesis
    using h q u m n by (intro conjI)
qed

text \<open>C10 as stated fails: \<^verbatim>\<open>leaveRoom\<close> passes any room id to \<^verbatim>\<open>socket.leave\<close>,
  so a connected socket that sent its own id as room id is no longer reached.\<close>

theorem left_own_room_counterexample:
  "{''a'', ''b''} \<subseteq> connected (run [Connect ''a'', Connect ''b'', LeaveRoom ''b'' ''b'' ''u''] init)
   \<and> map receivers (emitted (sendOffer ''a'' ''sdp'' ''b'' (Str ''a'')
        (run [Connect ''a'', Connect ''b'', LeaveRoom ''b'' ''b'' ''u''] init))) = [{}]"
  by (simp add: server_defs del: run.simps(2))

section \<open>The claims about the client\<close>





text \<open>
  C8. A client with a local stream and sessions with two remote users: when the first
  one leaves, the listener destroys that user's peer and removes its two map entries,
  and the new \<^verbatim>\<open>peers\<close> state makes React run the cleanup of the effect of lines
  281 to 289 (commented as cleanup on unmount): the tracks of the local stream are
  stopped and the peer of the second user is destroyed, although the call goes on.
  The same cleanup stops the local stream when a client that started a call leaves
  its room (\<^verbatim>\<open>leaveRoom\<close> sets \<^verbatim>\<open>peers\<close> to a new empty \<^verbatim>\<open>Map\<close>), without
  \<^verbatim>\<open>endCall\<close>.
\<close>

theorem single_close_stops_capture:
  "fst (client_step 100 (UserLeftRoomEv \<lparr>socketId = ''r1'', userId = ''u1''\<rparr>)
     ((client_init (Some ''me'') (Some ''u''))\<lparr>peers := [(PeerId ''r1'', 10), (PeerId ''r2'', 20)],
        localStream := Some 1, isCallActive := True,
        remoteStreams := [(PeerId ''r1'', 11), (PeerId ''r2'', 21)]\<rparr>))
   = (client_init (Some ''me'') (Some ''u''))\<lparr>peers := [(PeerId ''r2'', 20)], peersVersion := 1,
        localStream := Some 1, isCallActive := True, remoteStreams := [(PeerId ''r2'', 21)],
        destroyed := {10, 20}, stopped := {1}\<rparr>
   \<and> client_run 100 [StartCall (Inr 1), JoinRoomCall ''apt-42'', LeaveRoomCall]
       (client_init (Some ''me'') (Some ''u''))
   = (client_init (Some ''me'') (Some ''u''))\<lparr>peersVersion := 1, localStream := Some 1,
        isCallActive := True, stopped := {1},
        sent := [EmitJoinRoom ''apt-42'' ''u'', EmitLeaveRoom ''apt-42'' ''u'']\<rparr>"
  by (auto simp add: client_defs)

end
